theory Spec2Isabelle
  imports Main
begin

section \<open>Python values of the task service (backend/app.py)\<close>

text \<open>
  The value \<open>request.get_json()\<close> hands to a handler is any parsed JSON document.
  A JSON object is the Python dict it parses to, written as its list of items (one per
  key); \<open>None\<close> is \<open>JNull\<close>. Strings are lists of characters with code points
  below 256. A JSON number is kept as an integer: every test this program makes of a
  number (truthiness, \<open>isinstance(_, str)\<close>, equality with a status string) treats
  a non-integral number as it treats a non-zero integer.
\<close>

datatype json =
    JNull
  | JBool bool
  | JNum int
  | JStr string
  | JArr "json list"
  | JObj "(string \<times> json) list"

datatype py_exception = AttributeError | OverflowError | OSError

text \<open>Python truthiness, as \<open>if not data\<close> and \<open>if title\<close> test it.\<close>

fun truthy :: "json \<Rightarrow> bool" where
  "truthy JNull = False"
| "truthy (JBool b) = b"
| "truthy (JNum n) = (n \<noteq> 0)"
| "truthy (JStr s) = (s \<noteq> [])"
| "truthy (JArr xs) = (xs \<noteq> [])"
| "truthy (JObj kvs) = (kvs \<noteq> [])"

text \<open>
  \<open>data.get(key, default)\<close>: only a dict has the method; on a list, a string, a
  number or \<open>True\<close> the attribute lookup raises \<open>AttributeError\<close>.
\<close>

fun py_get :: "json \<Rightarrow> string \<Rightarrow> json \<Rightarrow> py_exception + json" where
  "py_get (JObj kvs) k dflt = Inr (case map_of kvs k of None \<Rightarrow> dflt | Some v \<Rightarrow> v)"
| "py_get _ k dflt = Inl AttributeError"

text \<open>
  \<open>str.isspace\<close> on one character, for the code points below 256: tab to carriage
  return, the four separators 28 to 31, the space, NEL (133) and the no-break space (160).
\<close>

definition isspace :: "char \<Rightarrow> bool" where
  "isspace c =
     (let n = (of_char c :: nat)
      in (9 \<le> n \<and> n \<le> 13) \<or> (28 \<le> n \<and> n \<le> 32) \<or> n = 133 \<or> n = 160)"

text \<open>\<open>str.strip()\<close> with no argument: whitespace is removed at both ends.\<close>

definition strip :: "string \<Rightarrow> string" where
  "strip s = rev (dropWhile isspace (rev (dropWhile isspace s)))"

text \<open>\<open>title and isinstance(title, str) and title.strip()\<close>, as a truth value.\<close>

fun title_ok :: "json \<Rightarrow> bool" where
  "title_ok (JStr t) = (t \<noteq> [] \<and> strip t \<noteq> [])"
| "title_ok _ = False"

text \<open>\<open>status in ['pending', 'done']\<close>: only a string equals a string.\<close>

fun status_ok :: "json \<Rightarrow> bool" where
  "status_ok (JStr s) = (s \<in> set [''pending'', ''done''])"
| "status_ok _ = False"

text \<open>The Python \<open>str\<close> inside a value that passed one of the two tests above.\<close>

fun str_of :: "json \<Rightarrow> string" where
  "str_of (JStr s) = s"
| "str_of _ = []"

text \<open>Decimal text of a task id, as the f-string \<open>f'/tasks/{task_id}'\<close> prints it.\<close>

fun show_nat :: "nat \<Rightarrow> string" where
  "show_nat n =
     (if n < 10 then [char_of (48 + n)]
      else show_nat (n div 10) @ [char_of (48 + n mod 10)])"

declare show_nat.simps [simp del]

section \<open>The store: table \<open>tasks\<close>, its AUTOINCREMENT counter, and the log file\<close>

text \<open>
  \<open>setup_database\<close> declares
  \<^verbatim>\<open>task_id INTEGER PRIMARY KEY AUTOINCREMENT, task_title TEXT NOT NULL,
  task_status TEXT NOT NULL CHECK(task_status IN ('pending', 'done')), created_at TEXT NOT NULL\<close>.
  The rows are kept in rowid order, which is the order \<open>SELECT * FROM tasks\<close> scans
  them in. \<open>seq\<close> is the table's entry in \<open>sqlite_sequence\<close>: the largest rowid
  ever handed out. \<open>api_log\<close> is the content of \<open>api_logs.txt\<close>, one entry per line.
\<close>

record row =
  task_id :: nat
  task_title :: string
  task_status :: string
  created_at :: string

record log_line =
  stamp :: string
  meth :: string
  path :: string
  payload :: json

record world =
  tasks :: "row list"
  seq :: nat
  api_log :: "log_line list"

text \<open>The files right after \<open>setup_database\<close> has created them.\<close>

definition initial_world :: world where
  "initial_world = \<lparr>tasks = [], seq = 0, api_log = []\<rparr>"

datatype sqlite_error = DatabaseFull | CheckFailed

text \<open>The text of the \<open>sqlite3.Error\<close>, as \<open>f'DB issue: {db_err}'\<close> prints it.\<close>

fun sqlite_msg :: "sqlite_error \<Rightarrow> string" where
  "sqlite_msg DatabaseFull = ''database or disk is full''"
| "sqlite_msg CheckFailed = ''CHECK constraint failed: tasks''"

text \<open>The largest value of an SQLite INTEGER, \<open>2^63 - 1\<close>.\<close>

definition max_rowid :: nat where
  "max_rowid = 9223372036854775807"

text \<open>
  Binding a Python int to a \<open>?\<close> placeholder: the sqlite3 module raises
  \<open>OverflowError\<close> (which is not an \<open>sqlite3.Error\<close>) when the int does not fit
  64 bits. The route converter \<open>int:task_id\<close> accepts any run of digits, so the
  handlers can be called with such an id.
\<close>

definition bind_int :: "nat \<Rightarrow> py_exception + nat" where
  "bind_int n = (if n \<le> max_rowid then Inr n else Inl OverflowError)"

text \<open>\<open>SELECT * FROM tasks WHERE task_id = ?\<close> followed by \<open>fetchone()\<close>.\<close>

definition select_task :: "nat \<Rightarrow> world \<Rightarrow> py_exception + row option" where
  "select_task tid w =
     (case bind_int tid of
        Inl e \<Rightarrow> Inl e
      | Inr i \<Rightarrow> Inr (find (\<lambda>r. task_id r = i) (tasks w)))"

text \<open>
  The rowid AUTOINCREMENT picks is one more than the largest rowid the table has ever
  held; when that was the largest INTEGER the INSERT fails with SQLITE_FULL.
\<close>

definition top_rowid :: "world \<Rightarrow> nat" where
  "top_rowid w = fold max (map task_id (tasks w)) (seq w)"

text \<open>
  \<open>INSERT INTO tasks (task_title, task_status, created_at) VALUES (?, ?, ?)\<close>,
  \<open>commit\<close>, and \<open>cur.lastrowid\<close>.
\<close>

definition insert_task :: "string \<Rightarrow> string \<Rightarrow> string \<Rightarrow> world \<Rightarrow> sqlite_error + (nat \<times> world)" where
  "insert_task title status created w =
     (if status \<notin> set [''pending'', ''done''] then Inl CheckFailed
      else if max_rowid \<le> top_rowid w then Inl DatabaseFull
      else
        let new_id = top_rowid w + 1
        in Inr (new_id,
             w\<lparr>tasks := tasks w @
                  [\<lparr>task_id = new_id, task_title = title, task_status = status,
                    created_at = created\<rparr>],
               seq := new_id\<rparr>))"

text \<open>One assignment \<open>column = ?\<close> of the UPDATE statement, on one row.\<close>

definition set_column :: "string \<times> string \<Rightarrow> row \<Rightarrow> row" where
  "set_column kv r =
     (if fst kv = ''task_title'' then r\<lparr>task_title := snd kv\<rparr>
      else if fst kv = ''task_status'' then r\<lparr>task_status := snd kv\<rparr>
      else r)"

text \<open>
  \<open>'UPDATE tasks SET ' + ', '.join(f'{k} = ?' for k in updates) + ' WHERE task_id = ?'\<close>:
  \<open>updates\<close> is the Python dict, as its items in insertion order. The CHECK
  constraint rejects the statement when a row it changes would get another status.
\<close>

definition update_task :: "(string \<times> string) list \<Rightarrow> nat \<Rightarrow> world \<Rightarrow> sqlite_error + world" where
  "update_task updates tid w =
     (if \<exists>r \<in> set (tasks w).
           task_id r = tid \<and> task_status (fold set_column updates r) \<notin> set [''pending'', ''done'']
      then Inl CheckFailed
      else Inr (w\<lparr>tasks :=
                  map (\<lambda>r. if task_id r = tid then fold set_column updates r else r) (tasks w)\<rparr>))"

text \<open>\<open>DELETE FROM tasks WHERE task_id = ?\<close>.\<close>

definition delete_task :: "nat \<Rightarrow> world \<Rightarrow> world" where
  "delete_task tid w = w\<lparr>tasks := filter (\<lambda>r. task_id r \<noteq> tid) (tasks w)\<rparr>"

section \<open>Responses\<close>

datatype body = Json json | Empty

text \<open>
  A handler either returns a body and a status code, or lets an exception escape; Flask
  answers an escaped exception with status 500.
\<close>

datatype outcome = Returned body nat | Raised py_exception

fun http_status :: "outcome \<Rightarrow> nat" where
  "http_status (Returned b s) = s"
| "http_status (Raised e) = 500"

text \<open>\<open>jsonify({'error': msg})\<close>.\<close>

definition error_body :: "string \<Rightarrow> body" where
  "error_body msg = Json (JObj [(''error'', JStr msg)])"

text \<open>\<open>row_to_json\<close>: the dict of the four columns, \<open>None\<close> for no row.\<close>

fun row_to_json :: "row option \<Rightarrow> json" where
  "row_to_json None = JNull"
| "row_to_json (Some r) =
     JObj [(''task_id'', JNum (int (task_id r))),
           (''task_title'', JStr (task_title r)),
           (''task_status'', JStr (task_status r)),
           (''created_at'', JStr (created_at r))]"

section \<open>The request log\<close>

text \<open>
  \<open>log_request\<close> opens \<open>api_logs.txt\<close> for appending and writes one line; nothing
  guards it. Whether the file can be written is the environment's choice:
  \<open>Writable t\<close> appends the line, stamped with the clock reading \<open>t\<close>;
  \<open>Unwritable\<close> makes \<open>open\<close> raise \<open>OSError\<close>.
\<close>

datatype log_io = Writable string | Unwritable

fun log_request :: "log_io \<Rightarrow> string \<Rightarrow> string \<Rightarrow> json \<Rightarrow> world \<Rightarrow> py_exception + world" where
  "log_request Unwritable endpoint method data w = Inl OSError"
| "log_request (Writable t) endpoint method data w =
     Inr (w\<lparr>api_log := api_log w @
            [\<lparr>stamp = t, meth = method, path = endpoint, payload = data\<rparr>]\<rparr>)"

section \<open>The five handlers\<close>

text \<open>\<open>GET /tasks\<close>.\<close>

definition fetch_all_tasks :: "log_io \<Rightarrow> world \<Rightarrow> outcome \<times> world" where
  "fetch_all_tasks io w =
     (case log_request io ''/tasks'' ''GET'' JNull w of
        Inl e \<Rightarrow> (Raised e, w)
      | Inr w1 \<Rightarrow>
          (Returned (Json (JArr (map (\<lambda>r. row_to_json (Some r)) (tasks w1)))) 200, w1))"

text \<open>
  \<open>POST /tasks\<close>. \<open>now\<close> is \<open>datetime.now().isoformat()\<close> at the INSERT.
\<close>

definition create_task :: "log_io \<Rightarrow> string \<Rightarrow> json \<Rightarrow> world \<Rightarrow> outcome \<times> world" where
  "create_task io now data w =
     (case log_request io ''/tasks'' ''POST'' data w of
        Inl e \<Rightarrow> (Raised e, w)
      | Inr w1 \<Rightarrow>
          if \<not> truthy data then (Returned (error_body ''No JSON data provided'') 400, w1)
          else
            (case py_get data ''task_title'' JNull of
               Inl e \<Rightarrow> (Raised e, w1)
             | Inr title \<Rightarrow>
            (case py_get data ''task_status'' (JStr ''pending'') of
               Inl e \<Rightarrow> (Raised e, w1)
             | Inr status \<Rightarrow>
                 if \<not> title_ok title
                 then (Returned (error_body ''Task title must be a non-empty string'') 400, w1)
                 else if \<not> status_ok status
                 then (Returned (error_body ''Status must be pending or done'') 400, w1)
                 else
                   (case insert_task (strip (str_of title)) (str_of status) now w1 of
                      Inl err \<Rightarrow>
                        (Returned (error_body (''DB issue: '' @ sqlite_msg err)) 500, w1)
                    | Inr (new_id, w2) \<Rightarrow>
                        (case select_task new_id w2 of
                           Inl e \<Rightarrow> (Raised e, w2)
                         | Inr None \<Rightarrow>
                             (Returned (error_body ''Could not fetch new task'') 500, w2)
                         | Inr (Some new_task) \<Rightarrow>
                             (Returned (Json (row_to_json (Some new_task))) 201, w2))))))"

text \<open>\<open>GET /tasks/<int:task_id>\<close>.\<close>

definition fetch_task :: "log_io \<Rightarrow> nat \<Rightarrow> world \<Rightarrow> outcome \<times> world" where
  "fetch_task io tid w =
     (case log_request io (''/tasks/'' @ show_nat tid) ''GET'' JNull w of
        Inl e \<Rightarrow> (Raised e, w)
      | Inr w1 \<Rightarrow>
          (case select_task tid w1 of
             Inl e \<Rightarrow> (Raised e, w1)
           | Inr None \<Rightarrow> (Returned (error_body ''Task not found'') 404, w1)
           | Inr (Some task) \<Rightarrow> (Returned (Json (row_to_json (Some task))) 200, w1)))"

text \<open>The two \<open>if\<close> statements that fill the dict \<open>updates\<close>.\<close>

definition collect_updates :: "json \<Rightarrow> json \<Rightarrow> (string \<times> string) list" where
  "collect_updates title status =
     (if title_ok title then [(''task_title'', strip (str_of title))] else []) @
     (if status_ok status then [(''task_status'', str_of status)] else [])"

text \<open>\<open>PUT /tasks/<int:task_id>\<close>.\<close>

definition modify_task :: "log_io \<Rightarrow> nat \<Rightarrow> json \<Rightarrow> world \<Rightarrow> outcome \<times> world" where
  "modify_task io tid data w =
     (case log_request io (''/tasks/'' @ show_nat tid) ''PUT'' data w of
        Inl e \<Rightarrow> (Raised e, w)
      | Inr w1 \<Rightarrow>
          if \<not> truthy data then (Returned (error_body ''No JSON data provided'') 400, w1)
          else
            (case py_get data ''task_title'' JNull of
               Inl e \<Rightarrow> (Raised e, w1)
             | Inr title \<Rightarrow>
            (case py_get data ''task_status'' JNull of
               Inl e \<Rightarrow> (Raised e, w1)
             | Inr status \<Rightarrow>
                 let updates = collect_updates title status
                 in if updates = [] then (Returned (error_body ''Nothing to update'') 400, w1)
                    else
                      (case select_task tid w1 of
                         Inl e \<Rightarrow> (Raised e, w1)
                       | Inr None \<Rightarrow> (Returned (error_body ''Task not found'') 404, w1)
                       | Inr (Some _) \<Rightarrow>
                           (case update_task updates tid w1 of
                              Inl err \<Rightarrow>
                                (Returned (error_body (''DB issue: '' @ sqlite_msg err)) 500, w1)
                            | Inr w2 \<Rightarrow>
                                (case select_task tid w2 of
                                   Inl e \<Rightarrow> (Raised e, w2)
                                 | Inr None \<Rightarrow>
                                     (Returned (error_body ''Could not fetch updated task'') 500, w2)
                                 | Inr (Some updated_task) \<Rightarrow>
                                     (Returned (Json (row_to_json (Some updated_task))) 200, w2)))))))"

text \<open>\<open>DELETE /tasks/<int:task_id>\<close>.\<close>

definition remove_task :: "log_io \<Rightarrow> nat \<Rightarrow> world \<Rightarrow> outcome \<times> world" where
  "remove_task io tid w =
     (case log_request io (''/tasks/'' @ show_nat tid) ''DELETE'' JNull w of
        Inl e \<Rightarrow> (Raised e, w)
      | Inr w1 \<Rightarrow>
          (case select_task tid w1 of
             Inl e \<Rightarrow> (Raised e, w1)
           | Inr None \<Rightarrow> (Returned (error_body ''Task not found'') 404, w1)
           | Inr (Some _) \<Rightarrow> (Returned Empty 204, delete_task tid w1)))"

section \<open>Requests and runs of the service\<close>

text \<open>
  The routing table of the Flask app: one request is a route with its arguments, together
  with what the environment does to the log file during that request.
\<close>

datatype request =
    GetTasks
  | PostTasks string json
  | GetTask nat
  | PutTask nat json
  | DeleteTask nat

fun handle :: "log_io \<times> request \<Rightarrow> world \<Rightarrow> outcome \<times> world" where
  "handle (io, GetTasks) w = fetch_all_tasks io w"
| "handle (io, PostTasks now data) w = create_task io now data w"
| "handle (io, GetTask tid) w = fetch_task io tid w"
| "handle (io, PutTask tid data) w = modify_task io tid data w"
| "handle (io, DeleteTask tid) w = remove_task io tid w"

text \<open>Requests are served one after the other; the outcomes are listed in order.\<close>

fun run :: "(log_io \<times> request) list \<Rightarrow> world \<Rightarrow> outcome list \<times> world" where
  "run [] w = ([], w)"
| "run (rq # rqs) w =
     (let (out, w1) = handle rq w; (outs, w2) = run rqs w1 in (out # outs, w2))"

section \<open>What the properties are stated with\<close>

text \<open>The \<open>task_id\<close> member of a response body, when it is a dict that has one.\<close>

fun json_task_id :: "json \<Rightarrow> nat option" where
  "json_task_id (JObj kvs) =
     (case map_of kvs ''task_id'' of Some (JNum i) \<Rightarrow> Some (nat i) | _ \<Rightarrow> None)"
| "json_task_id _ = None"

text \<open>The id a response announces as newly created: only a 201 response does.\<close>

fun created_id :: "outcome \<Rightarrow> nat option" where
  "created_id (Returned (Json j) s) = (if s = 201 then json_task_id j else None)"
| "created_id _ = None"

definition assigned_ids :: "outcome list \<Rightarrow> nat list" where
  "assigned_ids outs = List.map_filter created_id outs"

text \<open>
  What SQLite itself maintains for a table with this schema: the primary key is unique,
  every rowid is an INTEGER that \<open>sqlite_sequence\<close> has recorded, and the CHECK
  constraint holds of every row.
\<close>

definition schema_ok :: "world \<Rightarrow> bool" where
  "schema_ok w =
     (distinct (map task_id (tasks w)) \<and> seq w \<le> max_rowid \<and>
      (\<forall>r \<in> set (tasks w).
         task_id r \<le> seq w \<and> task_status r \<in> set [''pending'', ''done'']))"

text \<open>
  The invariant of the data model: unique ids, a status that is one of the two enum
  values, and a title that is neither empty nor made of whitespace only.
\<close>

definition task_inv :: "world \<Rightarrow> bool" where
  "task_inv w =
     (distinct (map task_id (tasks w)) \<and>
      (\<forall>r \<in> set (tasks w).
         task_status r \<in> set [''pending'', ''done''] \<and> \<not> list_all isspace (task_title r)))"

text \<open>A string with no whitespace at its first and at its last position.\<close>

definition no_edge_space :: "string \<Rightarrow> bool" where
  "no_edge_space s = (case s of [] \<Rightarrow> True | c # cs \<Rightarrow> \<not> isspace c \<and> \<not> isspace (last s))"

definition titles_trimmed :: "world \<Rightarrow> bool" where
  "titles_trimmed w = (\<forall>r \<in> set (tasks w). no_edge_space (task_title r))"

text \<open>The part of the state that is the store: the table and its rowid counter.\<close>

definition store :: "world \<Rightarrow> row list \<times> nat" where
  "store w = (tasks w, seq w)"

section \<open>Basic facts\<close>

lemma initial_world_simps [simp]:
  "tasks initial_world = []" "seq initial_world = 0" "api_log initial_world = []"
  by (simp_all add: initial_world_def)

lemma title_okD: "title_ok j \<Longrightarrow> \<exists>t. j = JStr t \<and> strip t \<noteq> []"
  by (cases j) auto

lemma status_okD: "status_ok j \<Longrightarrow> \<exists>s. j = JStr s \<and> s \<in> set [''pending'', ''done'']"
  by (cases j) auto

section \<open>Facts about \<open>strip\<close> and the rowid counter\<close>

lemma dropWhile_all_Nil:
  assumes "\<forall>c \<in> set (dropWhile P xs). P c"
  shows "dropWhile P xs = []"
proof (rule ccontr)
  assume n: "dropWhile P xs \<noteq> []"
  then have "\<not> P (hd (dropWhile P xs))" by (rule hd_dropWhile)
  moreover have "hd (dropWhile P xs) \<in> set (dropWhile P xs)" using n by (rule hd_in_set)
  ultimately show False using assms by blast
qed

lemma strip_Nil_iff: "strip s = [] \<longleftrightarrow> list_all isspace s"
proof
  assume "strip s = []"
  then have "\<forall>c \<in> set (dropWhile isspace s). isspace c"
    by (simp add: strip_def)
  then have "dropWhile isspace s = []" by (rule dropWhile_all_Nil)
  then show "list_all isspace s" by (simp add: list_all_iff)
next
  assume "list_all isspace s"
  then have "dropWhile isspace s = []" by (simp add: list_all_iff)
  then show "strip s = []" by (simp add: strip_def del: dropWhile_eq_Nil_conv)
qed

lemma strip_prefix:
  "dropWhile isspace s = strip s @ rev (takeWhile isspace (rev (dropWhile isspace s)))"
proof -
  define u where "u = dropWhile isspace s"
  have "rev u = takeWhile isspace (rev u) @ dropWhile isspace (rev u)"
    by (rule takeWhile_dropWhile_id [symmetric])
  then have "rev (rev u) = rev (takeWhile isspace (rev u) @ dropWhile isspace (rev u))"
    by (rule arg_cong)
  then have "u = rev (dropWhile isspace (rev u)) @ rev (takeWhile isspace (rev u))"
    by (simp only: rev_rev_ident rev_append)
  then show ?thesis by (simp only: u_def strip_def)
qed

lemma strip_hd: assumes "strip s \<noteq> []" shows "\<not> isspace (hd (strip s))"
proof -
  have "hd (dropWhile isspace s) = hd (strip s)"
    using assms strip_prefix [of s] by (metis hd_append2)
  moreover have "dropWhile isspace s \<noteq> []"
    using assms strip_prefix [of s] by (metis append_is_Nil_conv)
  ultimately show ?thesis using hd_dropWhile [of isspace s] by simp
qed

lemma strip_last: assumes "strip s \<noteq> []" shows "\<not> isspace (last (strip s))"
proof -
  have n: "dropWhile isspace (rev (dropWhile isspace s)) \<noteq> []"
    using assms by (simp add: strip_def)
  have "last (strip s) = hd (dropWhile isspace (rev (dropWhile isspace s)))"
    using n by (simp add: strip_def last_rev)
  then show ?thesis using hd_dropWhile [OF n] by simp
qed

lemma fold_max_ge: "(a::nat) \<le> fold max xs a \<and> (\<forall>x \<in> set xs. x \<le> fold max xs a)"
proof (induction xs arbitrary: a)
  case Nil
  show ?case by simp
next
  case (Cons x xs)
  have "max x a \<le> fold max xs (max x a)" using Cons.IH [of "max x a"] by simp
  then show ?case using Cons.IH [of "max x a"] by auto
qed

lemma top_rowid_ge_seq: "seq w \<le> top_rowid w"
  using fold_max_ge [of "seq w" "map task_id (tasks w)"] by (simp add: top_rowid_def)

lemma top_rowid_ge_id: "r \<in> set (tasks w) \<Longrightarrow> task_id r \<le> top_rowid w"
  using fold_max_ge [of "seq w" "map task_id (tasks w)"] by (simp add: top_rowid_def)

lemma select_task_log [simp]:
  "select_task tid (w\<lparr>api_log := l\<rparr>) = select_task tid w"
  by (simp add: select_task_def split: sum.splits)

lemma top_rowid_log [simp]: "top_rowid (w\<lparr>api_log := l\<rparr>) = top_rowid w"
  by (simp add: top_rowid_def)

lemma find_fresh_append:
  assumes "\<forall>r \<in> set rs. task_id r \<noteq> task_id x"
  shows "find (\<lambda>r. task_id r = task_id x) (rs @ [x]) = Some x"
  using assms by (induction rs) auto

text \<open>A successful INSERT: the row it adds, and that the SELECT after it reads that row.\<close>

lemma insert_then_select:
  assumes "insert_task title status created w = Inr (new_id, w2)"
  shows "select_task new_id w2 =
           Inr (Some \<lparr>task_id = new_id, task_title = title, task_status = status,
                      created_at = created\<rparr>)
         \<and> new_id = top_rowid w + 1 \<and> top_rowid w < max_rowid
         \<and> status \<in> set [''pending'', ''done'']
         \<and> w2 = w\<lparr>tasks := tasks w @ [\<lparr>task_id = new_id, task_title = title,
                      task_status = status, created_at = created\<rparr>], seq := new_id\<rparr>"
proof -
  let ?x = "\<lparr>task_id = top_rowid w + 1, task_title = title, task_status = status,
             created_at = created\<rparr>"
  from assms have ok: "status \<in> set [''pending'', ''done'']" and lt: "top_rowid w < max_rowid"
    and id: "new_id = top_rowid w + 1"
    and w2: "w2 = w\<lparr>tasks := tasks w @ [?x], seq := top_rowid w + 1\<rparr>"
    by (auto simp: insert_task_def Let_def split: if_splits)
  have "\<forall>r \<in> set (tasks w). task_id r \<noteq> task_id ?x"
    using top_rowid_ge_id [of _ w] by fastforce
  then have "find (\<lambda>r. task_id r = task_id ?x) (tasks w @ [?x]) = Some ?x"
    by (rule find_fresh_append)
  then have "select_task new_id w2 = Inr (Some ?x)"
    using lt by (simp add: select_task_def bind_int_def id w2)
  then show ?thesis using ok lt id w2 by simp
qed

section \<open>Creating a task\<close>

text \<open>
  Claim C4. A create request whose body is a dict with a string title that is not blank
  and with no \<open>task_status\<close> key is answered 201; the body and the stored row carry
  the stripped title and the status \<open>pending\<close>. The log file is writable and the
  table has not used up its rowids. At the title \<open>" Buy milk "\<close> the body's title
  is \<open>"Buy milk"\<close>.
\<close>

theorem create_task_trims_title_defaults_pending:
  assumes "map_of kvs ''task_title'' = Some (JStr t)" and "strip t \<noteq> []"
    and "map_of kvs ''task_status'' = None" and "top_rowid w < max_rowid"
  shows "create_task (Writable ts) now (JObj kvs) w =
     (Returned (Json (row_to_json (Some \<lparr>task_id = top_rowid w + 1, task_title = strip t,
          task_status = ''pending'', created_at = now\<rparr>))) 201,
      w\<lparr>tasks := tasks w @ [\<lparr>task_id = top_rowid w + 1, task_title = strip t,
          task_status = ''pending'', created_at = now\<rparr>],
        seq := top_rowid w + 1,
        api_log := api_log w @
          [\<lparr>stamp = ts, meth = ''POST'', path = ''/tasks'', payload = JObj kvs\<rparr>]\<rparr>)"
proof -
  let ?w1 = "w\<lparr>api_log := api_log w @
                [\<lparr>stamp = ts, meth = ''POST'', path = ''/tasks'', payload = JObj kvs\<rparr>]\<rparr>"
  let ?x = "\<lparr>task_id = top_rowid w + 1, task_title = strip t, task_status = ''pending'',
             created_at = now\<rparr>"
  let ?w2 = "?w1\<lparr>tasks := tasks ?w1 @ [?x], seq := top_rowid w + 1\<rparr>"
  have ne: "kvs \<noteq> []" using assms(1) by auto
  have tne: "t \<noteq> []" using assms(2) by (auto simp: strip_def)
  have ins: "insert_task (strip t) ''pending'' now ?w1 = Inr (top_rowid w + 1, ?w2)"
    using assms(4) by (simp add: insert_task_def)
  from insert_then_select [OF ins]
  have sel: "select_task (top_rowid w + 1) ?w2 = Inr (Some ?x)" by simp
  show ?thesis
    using ne tne assms(1,2,3) ins sel by (simp add: create_task_def)
qed

theorem create_task_buy_milk_witness:
  "fst (create_task (Writable ''12:00'') ''2024-05-01T12:00:00''
         (JObj [(''task_title'', JStr '' Buy milk '')]) initial_world) =
     Returned (Json (JObj [(''task_id'', JNum 1), (''task_title'', JStr ''Buy milk''),
                           (''task_status'', JStr ''pending''),
                           (''created_at'', JStr ''2024-05-01T12:00:00'')])) 201"
proof -
  have s: "strip '' Buy milk '' = ''Buy milk''"
    by (simp add: strip_def isspace_def)
  have a: "map_of [(''task_title'', JStr '' Buy milk '')] ''task_title'' = Some (JStr '' Buy milk '')"
    by simp
  have b: "strip '' Buy milk '' \<noteq> []" by (simp add: s)
  have c: "map_of [(''task_title'', JStr '' Buy milk '')] ''task_status'' = None" by simp
  have d: "top_rowid initial_world < max_rowid" by (simp add: top_rowid_def max_rowid_def)
  have e: "top_rowid initial_world = 0" by (simp add: top_rowid_def)
  show ?thesis
    using create_task_trims_title_defaults_pending
      [OF a b c d, of "''12:00''" "''2024-05-01T12:00:00''"]
    by (simp add: s e)
qed

section \<open>An empty body\<close>



section \<open>Reading a task back\<close>

lemma find_Some_holds: "find P xs = Some x \<Longrightarrow> P x"
  by (induction xs) (auto split: if_splits)

lemma select_task_SomeD:
  assumes "select_task tid w = Inr (Some r)"
  shows "task_id r = tid \<and> tid \<le> max_rowid \<and> find (\<lambda>x. task_id x = tid) (tasks w) = Some r"
  using assms find_Some_holds [of "\<lambda>x. task_id x = tid" "tasks w" r]
  by (auto simp: select_task_def bind_int_def split: if_splits)

lemma select_task_in_range:
  "tid \<le> max_rowid \<Longrightarrow> select_task tid w = Inr (find (\<lambda>r. task_id r = tid) (tasks w))"
  by (simp add: select_task_def bind_int_def)

text \<open>The only 201 of \<open>create_task\<close> carries a row that the final table holds.\<close>

lemma create_task_201:
  assumes "create_task io now data w = (Returned (Json j) 201, w')"
  shows "\<exists>r. j = row_to_json (Some r) \<and> select_task (task_id r) w' = Inr (Some r)"
proof (cases io)
  case Unwritable
  with assms show ?thesis by (simp add: create_task_def)
next
  case (Writable t)
  with assms obtain r new_id
    where "j = row_to_json (Some r)" "select_task new_id w' = Inr (Some r)"
    by (auto simp: create_task_def error_body_def
          split: if_splits sum.splits option.splits prod.splits)
  then show ?thesis using select_task_SomeD [of new_id w' r] by auto
qed

text \<open>A body that passes both validations is inserted, while rowids are left.\<close>

lemma create_task_valid:
  assumes "py_get data ''task_title'' JNull = Inr title" and "title_ok title"
    and "py_get data ''task_status'' (JStr ''pending'') = Inr status" and "status_ok status"
    and "top_rowid w < max_rowid"
  shows "create_task (Writable ts) now data w =
     (Returned (Json (row_to_json (Some \<lparr>task_id = top_rowid w + 1,
          task_title = strip (str_of title), task_status = str_of status,
          created_at = now\<rparr>))) 201,
      w\<lparr>tasks := tasks w @ [\<lparr>task_id = top_rowid w + 1, task_title = strip (str_of title),
          task_status = str_of status, created_at = now\<rparr>],
        seq := top_rowid w + 1,
        api_log := api_log w @
          [\<lparr>stamp = ts, meth = ''POST'', path = ''/tasks'', payload = data\<rparr>]\<rparr>)"
proof -
  let ?w1 = "w\<lparr>api_log := api_log w @
                [\<lparr>stamp = ts, meth = ''POST'', path = ''/tasks'', payload = data\<rparr>]\<rparr>"
  let ?x = "\<lparr>task_id = top_rowid w + 1, task_title = strip (str_of title),
             task_status = str_of status, created_at = now\<rparr>"
  let ?w2 = "?w1\<lparr>tasks := tasks ?w1 @ [?x], seq := top_rowid w + 1\<rparr>"
  from assms(1,2) obtain kvs where kvs: "data = JObj kvs" "map_of kvs ''task_title'' = Some title"
    by (cases data) (auto split: option.splits)
  then have tr: "truthy data" by auto
  have st: "str_of status \<in> set [''pending'', ''done'']"
    using status_okD [OF assms(4)] by auto
  have ins: "insert_task (strip (str_of title)) (str_of status) now ?w1 = Inr (top_rowid w + 1, ?w2)"
    using assms(5) st by (simp add: insert_task_def)
  have sel: "select_task (top_rowid w + 1) ?w2 = Inr (Some ?x)"
    using insert_then_select [OF ins, THEN conjunct1] .
  show ?thesis
    using tr assms(1-4) ins sel by (simp add: create_task_def)
qed

text \<open>
  Claim C1. A create request whose title and status pass the validation is answered
  201 with a body (the log being writable and rowids being left). And whenever
  \<open>create_task\<close> answers 201 with a body, that body has a \<open>task_id\<close>, and
  \<open>fetch_task\<close> for this id on the resulting state answers 200 with the very same
  body: \<open>task_title\<close>, \<open>task_status\<close> and \<open>created_at\<close> (and
  \<open>task_id\<close>) are identical. The fetch only adds its line to the log.
\<close>

theorem create_then_fetch_round_trip:
  "(py_get data ''task_title'' JNull = Inr title \<and> title_ok title \<and>
    py_get data ''task_status'' (JStr ''pending'') = Inr status \<and> status_ok status \<and>
    top_rowid w < max_rowid \<longrightarrow>
      (\<exists>j v. create_task (Writable ts) now data w = (Returned (Json j) 201, v)))
   \<and> (create_task io now data w = (Returned (Json new_task) 201, w') \<longrightarrow>
      (\<exists>tid. json_task_id new_task = Some tid \<and>
           fetch_task (Writable ts') tid w' =
             (Returned (Json new_task) 200,
              w'\<lparr>api_log := api_log w' @
                [\<lparr>stamp = ts', meth = ''GET'', path = ''/tasks/'' @ show_nat tid,
                  payload = JNull\<rparr>]\<rparr>)))"
proof (intro conjI impI)
  assume "py_get data ''task_title'' JNull = Inr title \<and> title_ok title \<and>
    py_get data ''task_status'' (JStr ''pending'') = Inr status \<and> status_ok status \<and>
    top_rowid w < max_rowid"
  then show "\<exists>j v. create_task (Writable ts) now data w = (Returned (Json j) 201, v)"
    using create_task_valid [of data title status w ts now] by blast
next
  assume c: "create_task io now data w = (Returned (Json new_task) 201, w')"
  from create_task_201 [OF c] obtain r
    where j: "new_task = row_to_json (Some r)"
      and sel: "select_task (task_id r) w' = Inr (Some r)"
    by blast
  have "json_task_id new_task = Some (task_id r)" by (simp add: j)
  moreover have "fetch_task (Writable ts') (task_id r) w' =
             (Returned (Json new_task) 200,
              w'\<lparr>api_log := api_log w' @
                [\<lparr>stamp = ts', meth = ''GET'', path = ''/tasks/'' @ show_nat (task_id r),
                  payload = JNull\<rparr>]\<rparr>)"
    using sel by (simp add: fetch_task_def j)
  ultimately show "\<exists>tid. json_task_id new_task = Some tid \<and>
           fetch_task (Writable ts') tid w' =
             (Returned (Json new_task) 200,
              w'\<lparr>api_log := api_log w' @
                [\<lparr>stamp = ts', meth = ''GET'', path = ''/tasks/'' @ show_nat tid,
                  payload = JNull\<rparr>]\<rparr>)"
    by blast
qed

theorem create_then_fetch_round_trip_witness:
  "http_status (fst (create_task (Writable ''12:00'') ''2024-05-01T12:00:00''
         (JObj [(''task_title'', JStr ''Buy milk''), (''task_status'', JStr ''done'')])
         initial_world)) = 201
   \<and> fst (fetch_task (Writable ''12:01'') 1
         (snd (create_task (Writable ''12:00'') ''2024-05-01T12:00:00''
                 (JObj [(''task_title'', JStr ''Buy milk''), (''task_status'', JStr ''done'')])
                 initial_world))) =
     Returned (Json (JObj [(''task_id'', JNum 1), (''task_title'', JStr ''Buy milk''),
                           (''task_status'', JStr ''done''),
                           (''created_at'', JStr ''2024-05-01T12:00:00'')])) 200"
proof -
  let ?data = "JObj [(''task_title'', JStr ''Buy milk''), (''task_status'', JStr ''done'')]"
  let ?j = "JObj [(''task_id'', JNum 1), (''task_title'', JStr ''Buy milk''),
                  (''task_status'', JStr ''done''), (''created_at'', JStr ''2024-05-01T12:00:00'')]"
  let ?w = "\<lparr>tasks = [\<lparr>task_id = 1, task_title = ''Buy milk'', task_status = ''done'',
                       created_at = ''2024-05-01T12:00:00''\<rparr>],
             seq = 1,
             api_log = [\<lparr>stamp = ''12:00'', meth = ''POST'', path = ''/tasks'',
                         payload = ?data\<rparr>]\<rparr>"
  note rt = create_then_fetch_round_trip
      [where io = "Writable ''12:00''" and ts = "''12:00''" and now = "''2024-05-01T12:00:00''"
         and data = ?data and title = "JStr ''Buy milk''" and status = "JStr ''done''"
         and w = initial_world and new_task = ?j and w' = ?w and ts' = "''12:01''"]
  have v: "py_get ?data ''task_title'' JNull = Inr (JStr ''Buy milk'') \<and>
      title_ok (JStr ''Buy milk'') \<and>
      py_get ?data ''task_status'' (JStr ''pending'') = Inr (JStr ''done'') \<and>
      status_ok (JStr ''done'') \<and> top_rowid initial_world < max_rowid"
    by (simp add: strip_def isspace_def top_rowid_def max_rowid_def)
  from v rt obtain j0 v0
    where "create_task (Writable ''12:00'') ''2024-05-01T12:00:00'' ?data initial_world
             = (Returned (Json j0) 201, v0)"
    by blast
  then have s201: "http_status (fst (create_task (Writable ''12:00'') ''2024-05-01T12:00:00''
                      ?data initial_world)) = 201"
    by simp
  have c: "create_task (Writable ''12:00'') ''2024-05-01T12:00:00'' ?data initial_world =
             (Returned (Json ?j) 201, ?w)"
    by (simp add: create_task_def insert_task_def select_task_def bind_int_def top_rowid_def
          max_rowid_def strip_def isspace_def initial_world_def)
  from c rt obtain tid
    where i: "json_task_id ?j = Some tid"
      and f: "fst (fetch_task (Writable ''12:01'') tid ?w) = Returned (Json ?j) 200"
    by auto
  from i have "tid = 1" by simp
  with f s201 show ?thesis by (simp add: c)
qed

section \<open>An update with nothing to apply\<close>

text \<open>
  Claim C3, as the code has it. A PUT whose body is a dict with at least one key, in
  which \<open>task_title\<close> is not a non-blank string and \<open>task_status\<close> is not one of
  the two status strings, is answered 400 with \<open>Nothing to update\<close>, for every id,
  in the table or not; the table is not read or written, only the log gets its line.
  The empty dict is not such a body: it never reaches this test (claim C9).
\<close>

theorem modify_task_nothing_to_update:
  assumes "kvs \<noteq> []"
    and "py_get (JObj kvs) ''task_title'' JNull = Inr title" and "\<not> title_ok title"
    and "py_get (JObj kvs) ''task_status'' JNull = Inr status" and "\<not> status_ok status"
  shows "modify_task (Writable ts) tid (JObj kvs) w =
     (Returned (error_body ''Nothing to update'') 400,
      w\<lparr>api_log := api_log w @
        [\<lparr>stamp = ts, meth = ''PUT'', path = ''/tasks/'' @ show_nat tid,
          payload = JObj kvs\<rparr>]\<rparr>)"
  using assms by (simp add: modify_task_def collect_updates_def)

theorem modify_task_nothing_to_update_witness:
  "fst (modify_task (Writable ''12:00'') 1 (JObj [(''task_status'', JStr ''archived'')])
        \<lparr>tasks = [\<lparr>task_id = 1, task_title = ''Buy milk'', task_status = ''pending'',
                   created_at = ''2024-05-01T12:00:00''\<rparr>], seq = 1, api_log = []\<rparr>)
     = Returned (Json (JObj [(''error'', JStr ''Nothing to update'')])) 400
   \<and> tasks (snd (modify_task (Writable ''12:00'') 1 (JObj [(''task_status'', JStr ''archived'')])
        \<lparr>tasks = [\<lparr>task_id = 1, task_title = ''Buy milk'', task_status = ''pending'',
                   created_at = ''2024-05-01T12:00:00''\<rparr>], seq = 1, api_log = []\<rparr>))
     = [\<lparr>task_id = 1, task_title = ''Buy milk'', task_status = ''pending'',
         created_at = ''2024-05-01T12:00:00''\<rparr>]"
proof -
  have a: "[(''task_status'', JStr ''archived'')] \<noteq> []" by simp
  have b: "py_get (JObj [(''task_status'', JStr ''archived'')]) ''task_title'' JNull = Inr JNull"
    by simp
  have c: "\<not> title_ok JNull" by simp
  have d: "py_get (JObj [(''task_status'', JStr ''archived'')]) ''task_status'' JNull
             = Inr (JStr ''archived'')"
    by simp
  have e: "\<not> status_ok (JStr ''archived'')" by simp
  show ?thesis
    using modify_task_nothing_to_update [OF a b c d e, of "''12:00''" 1]
    by (simp add: error_body_def)
qed

text \<open>
  The claim as it is written fails at the empty dict: with task 1 in the table,
  \<open>PUT /tasks/1\<close> with body \<open>{}\<close> is not answered \<open>Nothing to update\<close>.
\<close>

theorem modify_task_empty_object_counterexample:
  "fst (modify_task (Writable ''12:00'') 1 (JObj [])
        \<lparr>tasks = [\<lparr>task_id = 1, task_title = ''Buy milk'', task_status = ''pending'',
                   created_at = ''2024-05-01T12:00:00''\<rparr>], seq = 1, api_log = []\<rparr>)
   \<noteq> Returned (error_body ''Nothing to update'') 400"
  by (simp add: modify_task_def error_body_def)

section \<open>Deleting a task\<close>

lemma find_filter_None:
  "find (\<lambda>r. task_id r = tid) (filter (\<lambda>r. task_id r \<noteq> tid) rs) = None"
  by (induction rs) auto

text \<open>
  Claim C5, as the code has it. For an id that fits an SQLite INTEGER: deleting a task
  that is in the table answers 204 with an empty body, and on the resulting state both
  a GET and a second DELETE of that id answer 404, the second DELETE leaving the store
  as it is; deleting an id that is not in the table answers 404. For every id whatever,
  and whatever happens to the log, a DELETE of an id that is not in the table never
  answers 204 and leaves the store unchanged.
\<close>

theorem remove_task_one_shot:
  "(tid \<le> max_rowid \<longrightarrow>
     (find (\<lambda>r. task_id r = tid) (tasks w) \<noteq> None \<longrightarrow>
        fst (remove_task (Writable t1) tid w) = Returned Empty 204
      \<and> fst (fetch_task (Writable t2) tid (snd (remove_task (Writable t1) tid w))) =
          Returned (error_body ''Task not found'') 404
      \<and> fst (remove_task (Writable t3) tid (snd (remove_task (Writable t1) tid w))) =
          Returned (error_body ''Task not found'') 404
      \<and> store (snd (remove_task (Writable t3) tid (snd (remove_task (Writable t1) tid w)))) =
          store (snd (remove_task (Writable t1) tid w)))
   \<and> (find (\<lambda>r. task_id r = tid) (tasks w) = None \<longrightarrow>
        fst (remove_task (Writable t1) tid w) = Returned (error_body ''Task not found'') 404))
   \<and> (find (\<lambda>r. task_id r = tid) (tasks w) = None \<longrightarrow>
        fst (remove_task io tid w) \<noteq> Returned Empty 204
      \<and> store (snd (remove_task io tid w)) = store w)"
proof -
  have a: "find (\<lambda>r. task_id r = tid) (tasks w) = None \<Longrightarrow>
        fst (remove_task io tid w) \<noteq> Returned Empty 204
      \<and> store (snd (remove_task io tid w)) = store w"
    by (cases io)
       (auto simp: remove_task_def store_def select_task_def bind_int_def error_body_def)
  have b: "tid \<le> max_rowid \<Longrightarrow> find (\<lambda>r. task_id r = tid) (tasks w) = None \<Longrightarrow>
        fst (remove_task (Writable t1) tid w) = Returned (error_body ''Task not found'') 404"
    by (simp add: remove_task_def select_task_in_range)
  have c: "tid \<le> max_rowid \<Longrightarrow> find (\<lambda>r. task_id r = tid) (tasks w) \<noteq> None \<Longrightarrow>
        remove_task (Writable t1) tid w = (Returned Empty 204,
          delete_task tid (w\<lparr>api_log := api_log w @
            [\<lparr>stamp = t1, meth = ''DELETE'', path = ''/tasks/'' @ show_nat tid,
              payload = JNull\<rparr>]\<rparr>))"
    by (auto simp: remove_task_def select_task_in_range)
  have d: "find (\<lambda>r. task_id r = tid) (tasks (delete_task tid v)) = None" for v
    by (simp add: delete_task_def find_filter_None)
  have e: "tid \<le> max_rowid \<Longrightarrow> fst (fetch_task (Writable t2) tid (delete_task tid v)) =
          Returned (error_body ''Task not found'') 404" for v
    using d [of v] by (simp add: fetch_task_def select_task_in_range)
  have f: "tid \<le> max_rowid \<Longrightarrow>
          fst (remove_task (Writable t3) tid (delete_task tid v)) =
            Returned (error_body ''Task not found'') 404
        \<and> store (snd (remove_task (Writable t3) tid (delete_task tid v))) =
            store (delete_task tid v)" for v
    using d [of v] by (simp add: remove_task_def select_task_in_range store_def)
  show ?thesis using a b c e f by simp
qed

theorem remove_task_one_shot_witness:
  "fst (remove_task (Writable ''12:01'') 1
        \<lparr>tasks = [\<lparr>task_id = 1, task_title = ''Buy milk'', task_status = ''pending'',
                   created_at = ''2024-05-01T12:00:00''\<rparr>], seq = 1, api_log = []\<rparr>)
     = Returned Empty 204
   \<and> fst (fetch_task (Writable ''12:02'') 1
        (snd (remove_task (Writable ''12:01'') 1
          \<lparr>tasks = [\<lparr>task_id = 1, task_title = ''Buy milk'', task_status = ''pending'',
                     created_at = ''2024-05-01T12:00:00''\<rparr>], seq = 1, api_log = []\<rparr>)))
     = Returned (Json (JObj [(''error'', JStr ''Task not found'')])) 404
   \<and> fst (remove_task (Writable ''12:03'') 1
        (snd (remove_task (Writable ''12:01'') 1
          \<lparr>tasks = [\<lparr>task_id = 1, task_title = ''Buy milk'', task_status = ''pending'',
                     created_at = ''2024-05-01T12:00:00''\<rparr>], seq = 1, api_log = []\<rparr>)))
     = Returned (Json (JObj [(''error'', JStr ''Task not found'')])) 404
   \<and> fst (remove_task (Writable ''12:01'') 2
        \<lparr>tasks = [\<lparr>task_id = 1, task_title = ''Buy milk'', task_status = ''pending'',
                   created_at = ''2024-05-01T12:00:00''\<rparr>], seq = 1, api_log = []\<rparr>)
     = Returned (Json (JObj [(''error'', JStr ''Task not found'')])) 404
   \<and> store (snd (remove_task (Writable ''12:01'') 2
        \<lparr>tasks = [\<lparr>task_id = 1, task_title = ''Buy milk'', task_status = ''pending'',
                   created_at = ''2024-05-01T12:00:00''\<rparr>], seq = 1, api_log = []\<rparr>))
     = ([\<lparr>task_id = 1, task_title = ''Buy milk'', task_status = ''pending'',
          created_at = ''2024-05-01T12:00:00''\<rparr>], 1)"
proof -
  let ?w = "\<lparr>tasks = [\<lparr>task_id = 1, task_title = ''Buy milk'', task_status = ''pending'',
                       created_at = ''2024-05-01T12:00:00''\<rparr>], seq = 1, api_log = []\<rparr>"
  have r: "(1::nat) \<le> max_rowid" "(2::nat) \<le> max_rowid" by (simp_all add: max_rowid_def)
  have there: "find (\<lambda>r. task_id r = 1) (tasks ?w) \<noteq> None" by simp
  have absent: "find (\<lambda>r. task_id r = 2) (tasks ?w) = None" by simp
  show ?thesis
    using r there absent
      remove_task_one_shot [of 1 ?w "''12:01''" "''12:02''" "''12:03''" "Writable ''12:01''"]
      remove_task_one_shot [of 2 ?w "''12:01''" "''12:02''" "''12:03''" "Writable ''12:01''"]
    by (simp add: error_body_def store_def)
qed

text \<open>
  The claim as it is written ("for every id") fails at the first id that does not fit
  an SQLite INTEGER: on the empty table, \<open>DELETE /tasks/9223372036854775808\<close> lets
  \<open>OverflowError\<close> escape, which is status 500 and not 404.
\<close>

theorem remove_task_huge_id_counterexample:
  "find (\<lambda>r. task_id r = 9223372036854775808) (tasks initial_world) = None
   \<and> fst (remove_task (Writable ''12:00'') 9223372036854775808 initial_world)
       = Raised OverflowError
   \<and> http_status (fst (remove_task (Writable ''12:00'') 9223372036854775808 initial_world))
       = 500"
  by (simp add: remove_task_def select_task_def bind_int_def max_rowid_def)

section \<open>A log file that cannot be written\<close>

text \<open>
  Claim C8, as the code has it. No handler guards its call of \<open>log_request\<close>: when
  the log file cannot be written, on every route the exception leaves the handler before
  anything else runs, the store and the log stay as they were, and the request ends with
  status 500.
\<close>

theorem unwritable_log_aborts_request:
  "handle (Unwritable, rq) w = (Raised OSError, w)
   \<and> http_status (fst (handle (Unwritable, rq) w)) = 500"
  by (cases rq)
     (simp_all add: fetch_all_tasks_def create_task_def fetch_task_def modify_task_def
        remove_task_def)

theorem unwritable_log_aborts_request_witness:
  "handle (Unwritable, GetTask 3) initial_world = (Raised OSError, initial_world)
   \<and> http_status (fst (handle (Unwritable, GetTask 3) initial_world)) = 500"
  using unwritable_log_aborts_request [of "GetTask 3" initial_world]
  by simp

text \<open>
  The claim as it is written fails on the empty store: \<open>GET /tasks\<close> is answered
  200 when the log can be written and 500 when it cannot.
\<close>

theorem unwritable_log_counterexample:
  "http_status (fst (handle (Unwritable, GetTasks) initial_world)) = 500
   \<and> http_status (fst (handle (Writable ''12:00'', GetTasks) initial_world)) = 200"
  by (simp add: fetch_all_tasks_def)

section \<open>Updating a task\<close>

lemma find_map_update:
  assumes "find (\<lambda>r. task_id r = tid) rs = Some r" and "\<And>x. task_id (f x) = task_id x"
  shows "find (\<lambda>r. task_id r = tid) (map (\<lambda>x. if task_id x = tid then f x else x) rs) = Some (f r)"
  using assms by (induction rs) (auto split: if_splits)

lemma task_id_fold_set_column [simp]: "task_id (fold set_column ups r) = task_id r"
  by (induction ups arbitrary: r) (auto simp: set_column_def)

lemma created_at_fold_set_column [simp]: "created_at (fold set_column ups r) = created_at r"
  by (induction ups arbitrary: r) (auto simp: set_column_def)

lemma update_task_frame:
  assumes "update_task ups tid w = Inr w2"
  shows "map task_id (tasks w2) = map task_id (tasks w) \<and>
         map created_at (tasks w2) = map created_at (tasks w) \<and> seq w2 = seq w \<and> api_log w2 = api_log w"
  using assms by (auto simp: update_task_def split: if_splits)

lemma modify_task_frame:
  "map task_id (tasks (snd (modify_task io tid data w))) = map task_id (tasks w)
   \<and> map created_at (tasks (snd (modify_task io tid data w))) = map created_at (tasks w)
   \<and> seq (snd (modify_task io tid data w)) = seq w"
proof (cases io)
  case Unwritable
  then show ?thesis by (simp add: modify_task_def)
next
  case (Writable t)
  then show ?thesis
    by (auto simp: modify_task_def Let_def dest!: update_task_frame
          split: sum.splits option.splits)
qed

lemma modify_task_title_only:
  assumes "schema_ok w"
    and "find (\<lambda>r. task_id r = tid) (tasks w) = Some r"
    and "map_of kvs ''task_title'' = Some (JStr t)" and "strip t \<noteq> []"
    and "map_of kvs ''task_status'' = Some status" and "\<not> status_ok status"
  shows "modify_task (Writable ts) tid (JObj kvs) w =
      (Returned (Json (row_to_json (Some (r\<lparr>task_title := strip t\<rparr>)))) 200,
       w\<lparr>tasks := map (\<lambda>x. if task_id x = tid then x\<lparr>task_title := strip t\<rparr> else x) (tasks w),
         api_log := api_log w @ [\<lparr>stamp = ts, meth = ''PUT'', path = ''/tasks/'' @ show_nat tid, payload = JObj kvs\<rparr>]\<rparr>)"
proof -
  let ?w1 = "w\<lparr>api_log := api_log w @ [\<lparr>stamp = ts, meth = ''PUT'', path = ''/tasks/'' @ show_nat tid, payload = JObj kvs\<rparr>]\<rparr>"
  let ?f = "\<lambda>x. x\<lparr>task_title := strip t\<rparr>"
  let ?rows = "map (\<lambda>x. if task_id x = tid then ?f x else x) (tasks w)"
  have ne: "kvs \<noteq> []" using assms(3) by auto
  have tne: "t \<noteq> []" using assms(4) by (auto simp: strip_def)
  have ups: "collect_updates (JStr t) status = [(''task_title'', strip t)]"
    using assms(4,6) tne by (simp add: collect_updates_def)
  have rin: "r \<in> set (tasks w)" and rid: "task_id r = tid"
    using assms(2) by (auto simp: find_Some_iff in_set_conv_nth)
  have rng: "tid \<le> max_rowid" using assms(1) rin rid by (auto simp: schema_ok_def)
  have sel: "select_task tid ?w1 = Inr (Some r)"
    using rng assms(2) by (simp add: select_task_in_range)
  have chk: "\<forall>x \<in> set (tasks w). task_status x \<in> set [''pending'', ''done'']"
    using assms(1) by (simp add: schema_ok_def)
  have fold1: "set_column (''task_title'', strip t) x = ?f x" for x
    by (simp add: set_column_def)
  have upd: "update_task [(''task_title'', strip t)] tid ?w1 = Inr (?w1\<lparr>tasks := ?rows\<rparr>)"
    using chk by (auto simp: update_task_def fold1)
  have "find (\<lambda>r. task_id r = tid) ?rows = Some (?f r)"
    using assms(2) by (rule find_map_update) simp
  then have sel2: "select_task tid (?w1\<lparr>tasks := ?rows\<rparr>) = Inr (Some (?f r))"
    using rng by (simp add: select_task_in_range)
  show ?thesis
    using ne assms(3,5) ups sel upd sel2
    by (simp add: modify_task_def)
qed

text \<open>
  Claim C2. In a table that satisfies its schema, for the id of a row \<open>r\<close> of the
  table: a PUT whose body carries a non-blank string title and a \<open>task_status\<close>
  that is not one of the two status strings is answered 200 with \<open>r\<close> in which only
  the title has changed, to the stripped title; in the table the rows of that id get the
  new title and nothing else changes. And for every input whatever (body, id, log, table)
  the update leaves the list of task ids and the list of creation times of the table,
  and the rowid counter, as they were.
\<close>

theorem modify_task_invalid_status_valid_title:
  "(schema_ok w \<and> find (\<lambda>x. task_id x = tid) (tasks w) = Some r \<and>
    map_of kvs ''task_title'' = Some (JStr t) \<and> strip t \<noteq> [] \<and>
    map_of kvs ''task_status'' = Some status \<and> \<not> status_ok status \<longrightarrow>
      modify_task (Writable ts) tid (JObj kvs) w =
        (Returned (Json (row_to_json (Some (r\<lparr>task_title := strip t\<rparr>)))) 200,
         w\<lparr>tasks := map (\<lambda>x. if task_id x = tid then x\<lparr>task_title := strip t\<rparr> else x)
                      (tasks w),
           api_log := api_log w @
             [\<lparr>stamp = ts, meth = ''PUT'', path = ''/tasks/'' @ show_nat tid,
               payload = JObj kvs\<rparr>]\<rparr>))
   \<and> map task_id (tasks (snd (modify_task io tid data w))) = map task_id (tasks w)
   \<and> map created_at (tasks (snd (modify_task io tid data w))) = map created_at (tasks w)
   \<and> seq (snd (modify_task io tid data w)) = seq w"
  using modify_task_title_only [of w tid r kvs t status ts] modify_task_frame [of io tid data w]
  by blast

theorem modify_task_invalid_status_valid_title_witness:
  "modify_task (Writable ''12:05'') 1
     (JObj [(''task_title'', JStr ''  Buy oat milk ''), (''task_status'', JStr ''archived'')])
     \<lparr>tasks = [\<lparr>task_id = 1, task_title = ''Buy milk'', task_status = ''pending'',
                created_at = ''2024-05-01T12:00:00''\<rparr>], seq = 1, api_log = []\<rparr>
   = (Returned (Json (JObj [(''task_id'', JNum 1), (''task_title'', JStr ''Buy oat milk''),
                            (''task_status'', JStr ''pending''),
                            (''created_at'', JStr ''2024-05-01T12:00:00'')])) 200,
      \<lparr>tasks = [\<lparr>task_id = 1, task_title = ''Buy oat milk'', task_status = ''pending'',
                 created_at = ''2024-05-01T12:00:00''\<rparr>], seq = 1,
       api_log = [\<lparr>stamp = ''12:05'', meth = ''PUT'', path = ''/tasks/'' @ show_nat 1,
                   payload = JObj [(''task_title'', JStr ''  Buy oat milk ''),
                                   (''task_status'', JStr ''archived'')]\<rparr>]\<rparr>)"
proof -
  let ?r = "\<lparr>task_id = 1, task_title = ''Buy milk'', task_status = ''pending'',
             created_at = ''2024-05-01T12:00:00''\<rparr>"
  let ?w = "\<lparr>tasks = [?r], seq = 1, api_log = []\<rparr>"
  let ?kvs = "[(''task_title'', JStr ''  Buy oat milk ''), (''task_status'', JStr ''archived'')]"
  have s: "strip ''  Buy oat milk '' = ''Buy oat milk''"
    by (simp add: strip_def isspace_def)
  have h: "schema_ok ?w \<and> find (\<lambda>x. task_id x = 1) (tasks ?w) = Some ?r \<and>
      map_of ?kvs ''task_title'' = Some (JStr ''  Buy oat milk '') \<and>
      strip ''  Buy oat milk '' \<noteq> [] \<and>
      map_of ?kvs ''task_status'' = Some (JStr ''archived'') \<and> \<not> status_ok (JStr ''archived'')"
    by (simp add: s schema_ok_def max_rowid_def)
  show ?thesis
    using modify_task_invalid_status_valid_title
      [of ?w 1 ?r ?kvs "''  Buy oat milk ''" "JStr ''archived''" "''12:05''"
          "Writable ''12:05''" "JNull"] h
    by (simp add: s)
qed

section \<open>What one request does to the store\<close>

lemma updated_row:
  "\<exists>t' s'. fold set_column (collect_updates title status) r = r\<lparr>task_title := t', task_status := s'\<rparr>
      \<and> (t' = task_title r \<or> (\<exists>t. t' = strip t \<and> strip t \<noteq> []))
      \<and> (s' = task_status r \<or> s' \<in> set [''pending'', ''done''])"
proof -
  have t: "title_ok title \<Longrightarrow> \<exists>t. strip (str_of title) = strip t \<and> strip t \<noteq> []"
    using title_okD [of title] by auto
  have s: "status_ok status \<Longrightarrow> str_of status \<in> set [''pending'', ''done'']"
    using status_okD [of status] by auto
  show ?thesis
  proof (cases "title_ok title")
    case True
    note tt = this
    show ?thesis
    proof (cases "status_ok status")
      case True
      have "fold set_column (collect_updates title status) r =
              r\<lparr>task_title := strip (str_of title), task_status := str_of status\<rparr>"
        using tt True by (simp add: collect_updates_def set_column_def)
      then show ?thesis using t [OF tt] s [OF True] by metis
    next
      case False
      have "fold set_column (collect_updates title status) r =
              r\<lparr>task_title := strip (str_of title), task_status := task_status r\<rparr>"
        using tt False by (simp add: collect_updates_def set_column_def)
      then show ?thesis using t [OF tt] by metis
    qed
  next
    case False
    note tf = this
    show ?thesis
    proof (cases "status_ok status")
      case True
      have "fold set_column (collect_updates title status) r =
              r\<lparr>task_title := task_title r, task_status := str_of status\<rparr>"
        using tf True by (simp add: collect_updates_def set_column_def)
      then show ?thesis using s [OF True] by metis
    next
      case False
      have "fold set_column (collect_updates title status) r =
              r\<lparr>task_title := task_title r, task_status := task_status r\<rparr>"
        using tf False by (simp add: collect_updates_def set_column_def)
      then show ?thesis by metis
    qed
  qed
qed

lemma created_id_error [simp]: "s \<noteq> 201 \<Longrightarrow> created_id (Returned b s) = None"
  by (cases b) auto

lemma fetch_all_tasks_effect:
  "fetch_all_tasks io w = (out, w') \<Longrightarrow> tasks w' = tasks w \<and> seq w' = seq w \<and> created_id out = None"
  by (cases io) (auto simp: fetch_all_tasks_def)

lemma fetch_task_effect:
  "fetch_task io tid w = (out, w') \<Longrightarrow> tasks w' = tasks w \<and> seq w' = seq w \<and> created_id out = None"
  by (cases io) (auto simp: fetch_task_def split: sum.splits option.splits)

lemma remove_task_effect:
  "remove_task io tid w = (out, w') \<Longrightarrow>
     seq w' = seq w \<and> created_id out = None \<and>
     (tasks w' = tasks w \<or> tasks w' = filter (\<lambda>r. task_id r \<noteq> tid) (tasks w))"
  by (cases io) (auto simp: remove_task_def delete_task_def split: sum.splits option.splits)

lemma update_task_InrD:
  "update_task ups tid w = Inr w2 \<Longrightarrow>
     w2 = w\<lparr>tasks := map (\<lambda>r. if task_id r = tid then fold set_column ups r else r) (tasks w)\<rparr>"
  by (auto simp: update_task_def split: if_splits)

lemma modify_task_effect:
  assumes "modify_task io tid data w = (out, w')"
  shows "seq w' = seq w \<and> created_id out = None \<and>
     (tasks w' = tasks w \<or>
      (\<exists>title status. tasks w' =
         map (\<lambda>r. if task_id r = tid then fold set_column (collect_updates title status) r else r)
           (tasks w)))"
proof (cases io)
  case Unwritable
  with assms show ?thesis by (auto simp: modify_task_def)
next
  case (Writable t)
  define T where "T = (case py_get data ''task_title'' JNull of Inr v \<Rightarrow> v | Inl e \<Rightarrow> JNull)"
  define S where "S = (case py_get data ''task_status'' JNull of Inr v \<Rightarrow> v | Inl e \<Rightarrow> JNull)"
  have "seq w' = seq w \<and> created_id out = None \<and>
     (tasks w' = tasks w \<or> tasks w' =
         map (\<lambda>r. if task_id r = tid then fold set_column (collect_updates T S) r else r)
           (tasks w))"
    using assms Writable
    by (auto simp: modify_task_def Let_def T_def S_def dest!: update_task_InrD
          split: sum.splits option.splits if_splits)
  then show ?thesis by blast
qed

lemma create_task_effect:
  assumes "create_task io now data w = (out, w')"
  shows "(tasks w' = tasks w \<and> seq w' = seq w \<and> created_id out = None) \<or>
     (\<exists>t s. strip t \<noteq> [] \<and> s \<in> set [''pending'', ''done''] \<and> top_rowid w < max_rowid \<and>
        tasks w' = tasks w @ [\<lparr>task_id = top_rowid w + 1, task_title = strip t,
                                task_status = s, created_at = now\<rparr>] \<and>
        seq w' = top_rowid w + 1 \<and> created_id out = Some (top_rowid w + 1))"
proof (cases io)
  case Unwritable
  with assms show ?thesis by (auto simp: create_task_def)
next
  case (Writable ts)
  let ?w1 = "w\<lparr>api_log := api_log w @ [\<lparr>stamp = ts, meth = ''POST'', path = ''/tasks'', payload = data\<rparr>]\<rparr>"
  show ?thesis
  proof (cases "truthy data \<and> (\<exists>title status. py_get data ''task_title'' JNull = Inr title \<and>
        py_get data ''task_status'' (JStr ''pending'') = Inr status \<and> title_ok title \<and> status_ok status
        \<and> (\<exists>p. insert_task (strip (str_of title)) (str_of status) now ?w1 = Inr p))")
    case False
    with assms Writable show ?thesis
      by (auto simp: create_task_def split: sum.splits if_splits)
  next
    case True
    then obtain title status new_id w2 where d: "truthy data"
      and g1: "py_get data ''task_title'' JNull = Inr title"
      and g2: "py_get data ''task_status'' (JStr ''pending'') = Inr status"
      and ok: "title_ok title" "status_ok status"
      and ins: "insert_task (strip (str_of title)) (str_of status) now ?w1 = Inr (new_id, w2)"
      by force
    from title_okD [OF ok(1)] obtain t where t: "title = JStr t" "strip t \<noteq> []" by blast
    from status_okD [OF ok(2)] obtain s where s: "status = JStr s" "s \<in> set [''pending'', ''done'']" by blast
    let ?x = "\<lparr>task_id = new_id, task_title = strip t, task_status = s, created_at = now\<rparr>"
    note its = insert_then_select [OF ins]
    have sel: "select_task new_id w2 = Inr (Some ?x)"
      using its [THEN conjunct1] by (simp add: t s)
    have id: "new_id = top_rowid w + 1"
      using its [THEN conjunct2, THEN conjunct1] by simp
    have lt: "top_rowid w < max_rowid"
      using its [THEN conjunct2, THEN conjunct2, THEN conjunct1] by simp
    have w2: "w2 = ?w1\<lparr>tasks := tasks ?w1 @ [?x], seq := new_id\<rparr>"
      using its [THEN conjunct2, THEN conjunct2, THEN conjunct2, THEN conjunct2] by (simp add: t s)
    have res: "create_task io now data w = (Returned (Json (row_to_json (Some ?x))) 201, w2)"
      using Writable d g1 g2 ok ins sel t s by (simp add: create_task_def)
    with assms have o: "out = Returned (Json (row_to_json (Some ?x))) 201" and w': "w' = w2" by simp_all
    have "created_id out = Some new_id" by (simp add: o)
    then show ?thesis using t s lt id w2 w' by auto
  qed
qed

lemma handle_effect:
  assumes "handle rq w = (out, w')"
  shows "(tasks w' = tasks w \<and> seq w' = seq w \<and> created_id out = None)
    \<or> (\<exists>t s now. strip t \<noteq> [] \<and> s \<in> set [''pending'', ''done''] \<and> top_rowid w < max_rowid \<and>
        tasks w' = tasks w @ [\<lparr>task_id = top_rowid w + 1, task_title = strip t,
                                task_status = s, created_at = now\<rparr>] \<and>
        seq w' = top_rowid w + 1 \<and> created_id out = Some (top_rowid w + 1))
    \<or> (\<exists>tid title status. seq w' = seq w \<and> created_id out = None \<and>
        tasks w' = map (\<lambda>r. if task_id r = tid
                              then fold set_column (collect_updates title status) r else r) (tasks w))
    \<or> (\<exists>tid. seq w' = seq w \<and> created_id out = None \<and>
        tasks w' = filter (\<lambda>r. task_id r \<noteq> tid) (tasks w))"
proof (cases rq)
  case (Pair io req)
  show ?thesis
  proof (cases req)
    case GetTasks
    with assms Pair show ?thesis using fetch_all_tasks_effect [of io w out w'] by simp
  next
    case (PostTasks now data)
    with assms Pair show ?thesis using create_task_effect [of io now data w out w'] by auto
  next
    case (GetTask tid)
    with assms Pair show ?thesis using fetch_task_effect [of io tid w out w'] by simp
  next
    case (PutTask tid data)
    with assms Pair show ?thesis using modify_task_effect [of io tid data w out w'] by auto
  next
    case (DeleteTask tid)
    with assms Pair show ?thesis using remove_task_effect [of io tid w out w'] by auto
  qed
qed

lemma strip_not_blank: "strip t \<noteq> [] \<Longrightarrow> \<not> list_all isspace (strip t)"
  using strip_hd [of t] hd_in_set [of "strip t"] by (auto simp: list_all_iff)

lemma strip_no_edge_space: "no_edge_space (strip t)"
  using strip_hd [of t] strip_last [of t]
  by (cases "strip t") (auto simp: no_edge_space_def)

lemma same_id_same_row:
  assumes "distinct (map task_id rs)" "r \<in> set rs" "r' \<in> set rs" "task_id r' = task_id r"
  shows "r' = r"
  using assms by (auto simp: distinct_map inj_on_def)

lemma handle_task_inv:
  assumes "task_inv w"
  shows "task_inv (snd (handle rq w)) \<and>
     (\<forall>r \<in> set (tasks w). \<forall>r' \<in> set (tasks (snd (handle rq w))).
        task_id r' = task_id r \<longrightarrow> created_at r' = created_at r)"
proof -
  obtain out w' where h: "handle rq w = (out, w')" by (cases "handle rq w")
  have d: "distinct (map task_id (tasks w))"
    and v: "\<And>r. r \<in> set (tasks w) \<Longrightarrow>
               task_status r \<in> set [''pending'', ''done''] \<and> \<not> list_all isspace (task_title r)"
    using assms by (auto simp: task_inv_def)
  from handle_effect [OF h]
  have "task_inv w' \<and>
     (\<forall>r \<in> set (tasks w). \<forall>r' \<in> set (tasks w'). task_id r' = task_id r \<longrightarrow> created_at r' = created_at r)"
  proof (elim disjE exE conjE)
    assume "tasks w' = tasks w"
    then show ?thesis using assms same_id_same_row [OF d] by (auto simp: task_inv_def)
  next
    fix t s now
    assume a: "strip t \<noteq> []" "s \<in> set [''pending'', ''done'']"
      "tasks w' = tasks w @ [\<lparr>task_id = top_rowid w + 1, task_title = strip t,
                              task_status = s, created_at = now\<rparr>]"
    have fresh: "top_rowid w + 1 \<notin> task_id ` set (tasks w)"
      using top_rowid_ge_id [of _ w] by fastforce
    have "distinct (map task_id (tasks w'))" using d fresh by (simp add: a(3))
    moreover have "\<forall>r \<in> set (tasks w'). task_status r \<in> set [''pending'', ''done''] \<and>
         \<not> list_all isspace (task_title r)"
      using v a(2) strip_not_blank [OF a(1)] by (auto simp: a(3))
    moreover have "created_at r' = created_at r"
      if "r \<in> set (tasks w)" "r' \<in> set (tasks w')" "task_id r' = task_id r" for r r'
    proof (cases "r' \<in> set (tasks w)")
      case True
      then show ?thesis using same_id_same_row [OF d that(1) True that(3)] by simp
    next
      case False
      then have "task_id r' = top_rowid w + 1" using that(2) by (auto simp: a(3))
      then have "top_rowid w + 1 \<in> task_id ` set (tasks w)" using that(1,3) by force
      then show ?thesis using fresh by simp
    qed
    ultimately show ?thesis by (simp add: task_inv_def)
  next
    fix tid title status
    let ?f = "\<lambda>r. if task_id r = tid then fold set_column (collect_updates title status) r else r"
    assume a: "tasks w' = map ?f (tasks w)"
    have ids: "map task_id (tasks w') = map task_id (tasks w)" by (simp add: a)
    have row: "task_status (?f r) \<in> set [''pending'', ''done''] \<and> \<not> list_all isspace (task_title (?f r))"
      if "r \<in> set (tasks w)" for r
    proof (cases "task_id r = tid")
      case False
      then show ?thesis using v [OF that] by simp
    next
      case True
      from updated_row [of title status r] obtain t' s' where
        u: "fold set_column (collect_updates title status) r = r\<lparr>task_title := t', task_status := s'\<rparr>"
        and t': "t' = task_title r \<or> (\<exists>t. t' = strip t \<and> strip t \<noteq> [])"
        and s': "s' = task_status r \<or> s' \<in> set [''pending'', ''done'']"
        by blast
      have "\<not> list_all isspace t'" using t' v [OF that] strip_not_blank by auto
      moreover have "s' \<in> set [''pending'', ''done'']" using s' v [OF that] by auto
      ultimately show ?thesis using True u by simp
    qed
    have "\<forall>r \<in> set (tasks w'). task_status r \<in> set [''pending'', ''done''] \<and>
         \<not> list_all isspace (task_title r)"
    proof
      fix r'
      assume "r' \<in> set (tasks w')"
      then obtain r where rin: "r \<in> set (tasks w)" and req: "r' = ?f r"
        by (auto simp: a)
      show "task_status r' \<in> set [''pending'', ''done''] \<and> \<not> list_all isspace (task_title r')"
        unfolding req by (rule row [OF rin])
    qed
    moreover have "created_at r' = created_at r"
      if "r \<in> set (tasks w)" "r' \<in> set (tasks w')" "task_id r' = task_id r" for r r'
    proof -
      from that(2) obtain x where x: "x \<in> set (tasks w)" "r' = ?f x" by (auto simp: a)
      then have "task_id x = task_id r" using that(3) by (simp split: if_splits)
      then have "x = r" using same_id_same_row [OF d that(1) x(1)] by simp
      then show ?thesis using x(2) by simp
    qed
    ultimately show ?thesis using d ids by (simp add: task_inv_def)
  next
    fix tid
    assume a: "tasks w' = filter (\<lambda>r. task_id r \<noteq> tid) (tasks w)"
    have "distinct (map task_id (tasks w'))" using d by (simp add: a distinct_map_filter)
    then show ?thesis using v same_id_same_row [OF d] by (auto simp: task_inv_def a)
  qed
  then show ?thesis by (simp add: h)
qed

text \<open>
  Claim C6. The invariant of the data model (unique \<open>task_id\<close>, \<open>task_status\<close>
  one of \<open>pending\<close> and \<open>done\<close>, \<open>task_title\<close> neither empty nor
  whitespace only) holds of the fresh store and is kept by every request on every route,
  whatever its arguments and whatever happens to the log; and a task that is in the table
  before and after a request has the same \<open>created_at\<close>.
\<close>

theorem task_invariant_preserved:
  "task_inv initial_world \<and>
   (task_inv w \<longrightarrow>
      task_inv (snd (handle rq w)) \<and>
      (\<forall>r \<in> set (tasks w). \<forall>r' \<in> set (tasks (snd (handle rq w))).
         task_id r' = task_id r \<longrightarrow> created_at r' = created_at r))"
proof -
  have "task_inv initial_world" by (simp add: task_inv_def)
  then show ?thesis using handle_task_inv [of w rq] by blast
qed

theorem task_invariant_preserved_witness:
  "task_inv \<lparr>tasks = [\<lparr>task_id = 1, task_title = ''Buy milk'', task_status = ''pending'',
                        created_at = ''2024-05-01T12:00:00''\<rparr>], seq = 1, api_log = []\<rparr>
   \<and> task_inv (snd (handle (Writable ''12:05'',
          PutTask 1 (JObj [(''task_title'', JStr '' Buy tea ''), (''task_status'', JStr ''done'')]))
        \<lparr>tasks = [\<lparr>task_id = 1, task_title = ''Buy milk'', task_status = ''pending'',
                   created_at = ''2024-05-01T12:00:00''\<rparr>], seq = 1, api_log = []\<rparr>))
   \<and> tasks (snd (handle (Writable ''12:05'',
          PutTask 1 (JObj [(''task_title'', JStr '' Buy tea ''), (''task_status'', JStr ''done'')]))
        \<lparr>tasks = [\<lparr>task_id = 1, task_title = ''Buy milk'', task_status = ''pending'',
                   created_at = ''2024-05-01T12:00:00''\<rparr>], seq = 1, api_log = []\<rparr>))
     = [\<lparr>task_id = 1, task_title = ''Buy tea'', task_status = ''done'',
         created_at = ''2024-05-01T12:00:00''\<rparr>]"
proof -
  let ?w = "\<lparr>tasks = [\<lparr>task_id = 1, task_title = ''Buy milk'', task_status = ''pending'',
                       created_at = ''2024-05-01T12:00:00''\<rparr>], seq = 1, api_log = []\<rparr>"
  let ?rq = "(Writable ''12:05'',
          PutTask 1 (JObj [(''task_title'', JStr '' Buy tea ''), (''task_status'', JStr ''done'')]))"
  have i: "task_inv ?w" by (simp add: task_inv_def isspace_def)
  have "task_inv (snd (handle ?rq ?w))"
    using task_invariant_preserved [of ?w ?rq] i by blast
  moreover have "tasks (snd (handle ?rq ?w))
     = [\<lparr>task_id = 1, task_title = ''Buy tea'', task_status = ''done'',
         created_at = ''2024-05-01T12:00:00''\<rparr>]"
    by (simp add: modify_task_def collect_updates_def select_task_def bind_int_def
          max_rowid_def update_task_def set_column_def strip_def isspace_def)
  ultimately show ?thesis using i by simp
qed

section \<open>Runs of requests\<close>

lemma run_Cons:
  "run (rq # rqs) w =
     (fst (handle rq w) # fst (run rqs (snd (handle rq w))), snd (run rqs (snd (handle rq w))))"
  by (simp add: split_beta Let_def)

lemma run_invariant:
  assumes "\<And>rq v. P v \<Longrightarrow> P (snd (handle rq v))" and "P w"
  shows "P (snd (run rqs w))"
  using assms(2)
proof (induction rqs arbitrary: w)
  case Nil
  then show ?case by simp
next
  case (Cons rq rqs)
  have "P (snd (handle rq w))" using Cons.prems by (rule assms(1))
  then have "P (snd (run rqs (snd (handle rq w))))" by (rule Cons.IH)
  then show ?case by (simp only: run_Cons snd_conv)
qed

lemma handle_titles_trimmed:
  assumes "titles_trimmed w"
  shows "titles_trimmed (snd (handle rq w))"
proof -
  obtain out w' where h: "handle rq w = (out, w')" by (cases "handle rq w")
  have v: "\<And>r. r \<in> set (tasks w) \<Longrightarrow> no_edge_space (task_title r)"
    using assms by (simp add: titles_trimmed_def)
  from handle_effect [OF h] have "titles_trimmed w'"
  proof (elim disjE exE conjE)
    assume "tasks w' = tasks w"
    then show ?thesis using assms by (simp add: titles_trimmed_def)
  next
    fix t s now
    assume "tasks w' = tasks w @ [\<lparr>task_id = top_rowid w + 1, task_title = strip t,
                              task_status = s, created_at = now\<rparr>]"
    then show ?thesis using v strip_no_edge_space [of t] by (auto simp: titles_trimmed_def)
  next
    fix tid title status
    let ?f = "\<lambda>r. if task_id r = tid then fold set_column (collect_updates title status) r else r"
    assume a: "tasks w' = map ?f (tasks w)"
    have row: "no_edge_space (task_title (?f r))" if "r \<in> set (tasks w)" for r
    proof (cases "task_id r = tid")
      case False
      then show ?thesis using v [OF that] by simp
    next
      case True
      from updated_row [of title status r] obtain t' s' where
        u: "fold set_column (collect_updates title status) r = r\<lparr>task_title := t', task_status := s'\<rparr>"
        and t': "t' = task_title r \<or> (\<exists>t. t' = strip t \<and> strip t \<noteq> [])"
        by blast
      have "no_edge_space t'" using t' v [OF that] strip_no_edge_space by auto
      then show ?thesis using True u by simp
    qed
    show ?thesis unfolding titles_trimmed_def
    proof
      fix r'
      assume "r' \<in> set (tasks w')"
      then obtain r where rin: "r \<in> set (tasks w)" and req: "r' = ?f r" by (auto simp: a)
      show "no_edge_space (task_title r')" unfolding req by (rule row [OF rin])
    qed
  next
    fix tid
    assume "tasks w' = filter (\<lambda>r. task_id r \<noteq> tid) (tasks w)"
    then show ?thesis using v by (simp add: titles_trimmed_def)
  qed
  then show ?thesis by (simp add: h)
qed

text \<open>
  Claim C10. No stored title has whitespace at its first or last position: this holds
  of the fresh store, and every run of requests from a store where it holds ends in a
  store where it holds; so it holds in every reachable store. Both \<open>create_task\<close>
  and \<open>modify_task\<close> write \<open>title.strip()\<close>, never the title as supplied.
\<close>

theorem stored_titles_trimmed:
  "titles_trimmed initial_world \<and>
   (titles_trimmed w \<longrightarrow> titles_trimmed (snd (run rqs w)))"
proof -
  have "titles_trimmed initial_world" by (simp add: titles_trimmed_def)
  moreover have "titles_trimmed w \<Longrightarrow> titles_trimmed (snd (run rqs w))"
    by (rule run_invariant [where P = titles_trimmed]) (rule handle_titles_trimmed)
  ultimately show ?thesis by blast
qed

theorem stored_titles_trimmed_witness:
  "titles_trimmed (snd (run
      [(Writable ''12:00'', PostTasks ''2024-05-01T12:00:00'' (JObj [(''task_title'', JStr '' Buy milk '')])),
       (Writable ''12:05'', PutTask 1 (JObj [(''task_title'', JStr ''  Buy tea  '')]))]
      initial_world))
   \<and> map task_title (tasks (snd (run
      [(Writable ''12:00'', PostTasks ''2024-05-01T12:00:00'' (JObj [(''task_title'', JStr '' Buy milk '')])),
       (Writable ''12:05'', PutTask 1 (JObj [(''task_title'', JStr ''  Buy tea  '')]))]
      initial_world))) = [''Buy tea'']"
proof -
  let ?rqs = "[(Writable ''12:00'', PostTasks ''2024-05-01T12:00:00'' (JObj [(''task_title'', JStr '' Buy milk '')])),
       (Writable ''12:05'', PutTask 1 (JObj [(''task_title'', JStr ''  Buy tea  '')]))]"
  have "titles_trimmed (snd (run ?rqs initial_world))"
    using stored_titles_trimmed [of initial_world ?rqs] by blast
  moreover have "map task_title (tasks (snd (run ?rqs initial_world))) = [''Buy tea'']"
    by (simp add: create_task_def insert_task_def top_rowid_def modify_task_def
          collect_updates_def select_task_def bind_int_def max_rowid_def update_task_def
          set_column_def strip_def isspace_def)
  ultimately show ?thesis by simp
qed

lemma handle_schema_step:
  assumes "schema_ok w" and h: "handle rq w = (out, w')"
  shows "schema_ok w' \<and> seq w \<le> seq w' \<and>
         (\<forall>i. created_id out = Some i \<longrightarrow> seq w < i \<and> i = seq w')"
proof -
  have d: "distinct (map task_id (tasks w))" and m: "seq w \<le> max_rowid"
    and v: "\<And>r. r \<in> set (tasks w) \<Longrightarrow>
               task_id r \<le> seq w \<and> task_status r \<in> set [''pending'', ''done'']"
    using assms(1) by (auto simp: schema_ok_def)
  from handle_effect [OF h] show ?thesis
  proof (elim disjE exE conjE)
    assume "tasks w' = tasks w" "seq w' = seq w" "created_id out = None"
    then show ?thesis using assms(1) by (simp add: schema_ok_def)
  next
    fix t s now
    assume a: "s \<in> set [''pending'', ''done'']" "top_rowid w < max_rowid"
      "tasks w' = tasks w @ [\<lparr>task_id = top_rowid w + 1, task_title = strip t,
                              task_status = s, created_at = now\<rparr>]"
      "seq w' = top_rowid w + 1" "created_id out = Some (top_rowid w + 1)"
    have fresh: "top_rowid w + 1 \<notin> task_id ` set (tasks w)"
      using top_rowid_ge_id [of _ w] by fastforce
    have ge: "seq w \<le> top_rowid w" by (rule top_rowid_ge_seq)
    have "distinct (map task_id (tasks w'))" using d fresh by (simp add: a(3))
    moreover have "seq w' \<le> max_rowid" using a(2,4) by simp
    moreover have "\<forall>r \<in> set (tasks w'). task_id r \<le> seq w' \<and>
         task_status r \<in> set [''pending'', ''done'']"
      using v a(1) ge by (fastforce simp: a(3,4))
    ultimately have "schema_ok w'" by (simp add: schema_ok_def)
    then show ?thesis using ge a(4,5) by simp
  next
    fix tid title status
    let ?f = "\<lambda>r. if task_id r = tid then fold set_column (collect_updates title status) r else r"
    assume a: "seq w' = seq w" "created_id out = None" "tasks w' = map ?f (tasks w)"
    have ids: "map task_id (tasks w') = map task_id (tasks w)" by (simp add: a(3))
    have row: "task_id (?f r) \<le> seq w \<and> task_status (?f r) \<in> set [''pending'', ''done'']"
      if "r \<in> set (tasks w)" for r
    proof (cases "task_id r = tid")
      case False
      then show ?thesis using v [OF that] by simp
    next
      case True
      from updated_row [of title status r] obtain t' s' where
        u: "fold set_column (collect_updates title status) r = r\<lparr>task_title := t', task_status := s'\<rparr>"
        and s': "s' = task_status r \<or> s' \<in> set [''pending'', ''done'']"
        by blast
      have "s' \<in> set [''pending'', ''done'']" using s' v [OF that] by auto
      then show ?thesis using True u v [OF that] by simp
    qed
    have "\<forall>r \<in> set (tasks w'). task_id r \<le> seq w' \<and> task_status r \<in> set [''pending'', ''done'']"
    proof
      fix r'
      assume "r' \<in> set (tasks w')"
      then obtain r where rin: "r \<in> set (tasks w)" and req: "r' = ?f r" by (auto simp: a(3))
      show "task_id r' \<le> seq w' \<and> task_status r' \<in> set [''pending'', ''done'']"
        unfolding req a(1) by (rule row [OF rin])
    qed
    then have "schema_ok w'" using d ids m a(1) by (simp add: schema_ok_def)
    then show ?thesis using a(1,2) by simp
  next
    fix tid
    assume a: "seq w' = seq w" "created_id out = None"
      "tasks w' = filter (\<lambda>r. task_id r \<noteq> tid) (tasks w)"
    have "distinct (map task_id (tasks w'))" using d by (simp add: a(3) distinct_map_filter)
    then have "schema_ok w'" using v m by (auto simp: schema_ok_def a)
    then show ?thesis using a(1,2) by simp
  qed
qed

lemma assigned_ids_Cons:
  "assigned_ids (out # outs) =
     (case created_id out of None \<Rightarrow> assigned_ids outs | Some i \<Rightarrow> i # assigned_ids outs)"
  by (simp add: assigned_ids_def split: option.splits)

lemma run_assigned_ids:
  assumes "schema_ok w"
  shows "sorted_wrt (<) (assigned_ids (fst (run rqs w))) \<and>
         (\<forall>i \<in> set (assigned_ids (fst (run rqs w))). seq w < i)"
  using assms
proof (induction rqs arbitrary: w)
  case Nil
  show ?case by (simp add: assigned_ids_def)
next
  case (Cons rq rqs)
  obtain out w' where h: "handle rq w = (out, w')" by (cases "handle rq w")
  from handle_schema_step [OF Cons.prems h]
  have ok: "schema_ok w'" and mono: "seq w \<le> seq w'"
    and new: "\<And>i. created_id out = Some i \<Longrightarrow> seq w < i \<and> i = seq w'"
    by auto
  from Cons.IH [OF ok]
  have srt: "sorted_wrt (<) (assigned_ids (fst (run rqs w')))"
    and gt: "\<And>j. j \<in> set (assigned_ids (fst (run rqs w'))) \<Longrightarrow> seq w' < j"
    by auto
  have r: "fst (run (rq # rqs) w) = out # fst (run rqs w')"
    by (simp only: run_Cons h fst_conv snd_conv)
  show ?case
  proof (cases "created_id out")
    case None
    have ids: "assigned_ids (fst (run (rq # rqs) w)) = assigned_ids (fst (run rqs w'))"
      by (simp only: r assigned_ids_Cons None option.case)
    have "seq w < j" if "j \<in> set (assigned_ids (fst (run rqs w')))" for j
      using gt [OF that] mono by simp
    then show ?thesis unfolding ids using srt by blast
  next
    case (Some i)
    have ids: "assigned_ids (fst (run (rq # rqs) w)) = i # assigned_ids (fst (run rqs w'))"
      by (simp only: r assigned_ids_Cons Some option.case)
    from new [OF Some] have lo: "seq w < i" and eq: "i = seq w'" by simp_all
    have hd: "i < j" if "j \<in> set (assigned_ids (fst (run rqs w')))" for j
      using gt [OF that] eq by simp
    have "seq w < j" if "j \<in> set (assigned_ids (fst (run rqs w')))" for j
      using hd [OF that] lo by simp
    then show ?thesis unfolding ids using srt hd lo by simp
  qed
qed

text \<open>
  Claim C7. From a table that satisfies its schema (the fresh store does), in every run
  of requests, create requests among them or nothing but create requests, the ids
  carried by the 201 responses are strictly increasing in the order of the responses:
  each is greater than, so distinct from, every id assigned before it in the run. Each
  is also greater than the rowid counter at the start of the run, hence greater than
  every id that was in the table then.
\<close>

theorem created_ids_strictly_increase:
  "schema_ok initial_world \<and>
   (schema_ok w \<longrightarrow>
      sorted_wrt (<) (assigned_ids (fst (run rqs w))) \<and>
      (\<forall>i \<in> set (assigned_ids (fst (run rqs w))).
         seq w < i \<and> (\<forall>r \<in> set (tasks w). task_id r < i)))"
proof -
  have "schema_ok initial_world" by (simp add: schema_ok_def)
  moreover have "schema_ok w \<Longrightarrow> r \<in> set (tasks w) \<Longrightarrow> seq w < i \<Longrightarrow> task_id r < i" for r i
    by (auto simp: schema_ok_def)
  ultimately show ?thesis using run_assigned_ids [of w rqs] by blast
qed

theorem created_ids_strictly_increase_witness:
  "sorted_wrt (<) (assigned_ids (fst (run
      [(Writable ''12:00'', PostTasks ''2024-05-01T12:00:00'' (JObj [(''task_title'', JStr ''a'')])),
       (Writable ''12:01'', DeleteTask 1),
       (Writable ''12:02'', PostTasks ''2024-05-01T12:02:00'' (JObj [(''task_title'', JStr ''b'')]))]
      initial_world)))
   \<and> assigned_ids (fst (run
      [(Writable ''12:00'', PostTasks ''2024-05-01T12:00:00'' (JObj [(''task_title'', JStr ''a'')])),
       (Writable ''12:01'', DeleteTask 1),
       (Writable ''12:02'', PostTasks ''2024-05-01T12:02:00'' (JObj [(''task_title'', JStr ''b'')]))]
      initial_world)) = [1, 2]"
proof -
  let ?rqs = "[(Writable ''12:00'', PostTasks ''2024-05-01T12:00:00'' (JObj [(''task_title'', JStr ''a'')])),
       (Writable ''12:01'', DeleteTask 1),
       (Writable ''12:02'', PostTasks ''2024-05-01T12:02:00'' (JObj [(''task_title'', JStr ''b'')]))]"
  have "sorted_wrt (<) (assigned_ids (fst (run ?rqs initial_world)))"
    using created_ids_strictly_increase [of initial_world ?rqs] by blast
  moreover have "assigned_ids (fst (run ?rqs initial_world)) = [1, 2]"
    by (simp add: assigned_ids_def create_task_def insert_task_def top_rowid_def
          remove_task_def delete_task_def select_task_def bind_int_def max_rowid_def
          strip_def isspace_def)
  ultimately show ?thesis by simp
qed

end
